theory Spec2Isabelle
  imports Main "HOL-Library.Char_ord" "HOL-Library.Code_Target_Nat" "HOL-Library.List_Lexorder" "HOL-Library.Sublist"
begin

section \<open>Strings of the runtime\<close>

text \<open>
  Strings are lists of characters, each below 256. For the Node scanner a character is a
  code unit of the JavaScript string; for the Go scanner it is a byte of the Go string,
  so that a character beyond ASCII is the sequence of its UTF-8 bytes there. The helpers
  below are the string primitives of the two runtimes that the scanner calls, written out
  on such lists.
\<close>

definition isDigit :: "char \<Rightarrow> bool" where
  "isDigit c = (c \<in> set ''0123456789'')"

definition isUpper :: "char \<Rightarrow> bool" where
  "isUpper c = (c \<in> set ''ABCDEFGHIJKLMNOPQRSTUVWXYZ'')"

definition isLower :: "char \<Rightarrow> bool" where
  "isLower c = (c \<in> set ''abcdefghijklmnopqrstuvwxyz'')"

text \<open>The character class \<^verbatim>\<open>[a-zA-Z0-9.-]\<close> of the prerelease group.\<close>

definition isPrereleaseChar :: "char \<Rightarrow> bool" where
  "isPrereleaseChar c = (isLower c \<or> isUpper c \<or> isDigit c \<or> c = CHR ''.'' \<or> c = CHR ''-'')"

text \<open>The character class \<^verbatim>\<open>[~^><=*x]\<close> of the range operators.\<close>

definition isRangeOperatorChar :: "char \<Rightarrow> bool" where
  "isRangeOperatorChar c = (c \<in> set ''~^><=*x'')"

text \<open>The test \<^verbatim>\<open>/[~^><=*x]/.test(s)\<close>: the class occurs somewhere in the string.\<close>

definition hasRangeOperator :: "string \<Rightarrow> bool" where
  "hasRangeOperator s = list_ex isRangeOperatorChar s"

text \<open>
  JavaScript's white space and line terminators below 256, as \<^verbatim>\<open>trim()\<close> and
  \<^verbatim>\<open>\s\<close> take them: tab, line feed, vertical tab, form feed, carriage return,
  space and the no-break space.
\<close>

definition isJsSpace :: "char \<Rightarrow> bool" where
  "isJsSpace c = (of_char c \<in> set [9, 10, 11, 12, 13, 32, 160 :: nat])"

definition trim :: "string \<Rightarrow> string" where
  "trim s = rev (dropWhile isJsSpace (rev (dropWhile isJsSpace s)))"

definition startsWith :: "string \<Rightarrow> string \<Rightarrow> bool" where
  "startsWith s p = (take (length p) s = p)"

text \<open>
  \<^verbatim>\<open>parseInt(ds, 10)\<close> on a run of decimal digits returns a JavaScript number, a
  double: the integer that the digits write, rounded to the nearest double, to the even
  one on a tie. Integers below \<open>2 ^ 53\<close> are kept as they are; above, the 53 leading bits
  are kept and the rest is rounded; what rounds to \<open>2 ^ 1024\<close> or more is
  \<^verbatim>\<open>Infinity\<close>, for which the natural \<open>2 ^ 1024\<close> stands: it is larger than every
  finite double, which is all that the comparisons and the differences of the code read.
\<close>

definition digitValue :: "char \<Rightarrow> nat" where
  "digitValue c = of_char c - 48"

fun bitLength :: "nat \<Rightarrow> nat" where
  "bitLength 0 = 0"
| "bitLength (Suc n) = Suc (bitLength (Suc n div 2))"

definition toDouble :: "nat \<Rightarrow> nat" where
  "toDouble n =
     (if n < 9007199254740992 then n
      else
        let e = bitLength n - 53;
            q = n div 2 ^ e;
            r = n mod 2 ^ e;
            half = 2 ^ (e - 1);
            m = (if half < r \<or> (r = half \<and> odd q) then q + 1 else q)
        in if 2 ^ 1024 \<le> m * 2 ^ e then 2 ^ 1024 else m * 2 ^ e)"

definition parseInt :: "string \<Rightarrow> nat" where
  "parseInt ds = toDouble (foldl (\<lambda>n c. 10 * n + digitValue c) 0 ds)"

text \<open>
  The regular-expression group \<^verbatim>\<open>(\d+)\<close>: the longest non-empty run of digits at the
  head of the input, with what follows it.
\<close>

definition matchDigits :: "string \<Rightarrow> (string \<times> string) option" where
  "matchDigits s =
     (let ds = takeWhile isDigit s
      in if ds = [] then None else Some (ds, dropWhile isDigit s))"

text \<open>The literal \<^verbatim>\<open>\.\<close> of a pattern: one expected character.\<close>

definition expectChar :: "char \<Rightarrow> string \<Rightarrow> string option" where
  "expectChar c s = (case s of [] \<Rightarrow> None | x # xs \<Rightarrow> if x = c then Some xs else None)"

section \<open>The semver module of the Node scanner\<close>

record version =
  major :: nat
  minor :: nat
  patch :: nat
  prerelease :: "string option"

text \<open>
  \<^verbatim>\<open>parse\<close>: strip one leading \<^verbatim>\<open>v\<close>, then match
  \<^verbatim>\<open>/^(\d+)\.(\d+)\.(\d+)(?:-([a-zA-Z0-9.-]+))?/\<close>. The pattern is anchored at the
  start only, so whatever follows the match is ignored.
\<close>

definition stripLeadingV :: "string \<Rightarrow> string" where
  "stripLeadingV s = (case s of [] \<Rightarrow> [] | c # cs \<Rightarrow> if c = CHR ''v'' then cs else s)"

definition matchPrerelease :: "string \<Rightarrow> string option" where
  "matchPrerelease s =
     (case s of
        [] \<Rightarrow> None
      | c # cs \<Rightarrow>
          if c = CHR ''-'' \<and> takeWhile isPrereleaseChar cs \<noteq> []
          then Some (takeWhile isPrereleaseChar cs) else None)"

definition parse :: "string \<Rightarrow> version option" where
  "parse v =
     (if v = [] then None
      else
        case matchDigits (stripLeadingV v) of
          None \<Rightarrow> None
        | Some (m1, r1) \<Rightarrow>
            (case expectChar CHR ''.'' r1 of
               None \<Rightarrow> None
             | Some r1' \<Rightarrow>
                 (case matchDigits r1' of
                    None \<Rightarrow> None
                  | Some (m2, r2) \<Rightarrow>
                      (case expectChar CHR ''.'' r2 of
                         None \<Rightarrow> None
                       | Some r2' \<Rightarrow>
                           (case matchDigits r2' of
                              None \<Rightarrow> None
                            | Some (m3, r3) \<Rightarrow>
                                Some \<lparr>major = parseInt m1, minor = parseInt m2,
                                      patch = parseInt m3,
                                      prerelease = matchPrerelease r3\<rparr>)))))"

text \<open>
  \<^verbatim>\<open>String.prototype.localeCompare\<close> with no locale argument is the host's
  locale-sensitive collation, not a comparison of code units. The model is the default
  (root) collation on the characters a parsed prerelease tag can hold: a string is
  compared first by the primary weights of its characters, which order \<^verbatim>\<open>-\<close>,
  then \<^verbatim>\<open>.\<close>, then the digits, then the letters without regard to case; only
  when two strings agree on that level does case decide, lower case first.
\<close>

definition toLower :: "char \<Rightarrow> char" where
  "toLower c = (if isUpper c then char_of (of_char c + (32::nat)) else c)"

definition collationOrder :: string where
  "collationOrder = ''-.0123456789abcdefghijklmnopqrstuvwxyz''"

definition primaryWeight :: "char \<Rightarrow> nat" where
  "primaryWeight c = length (takeWhile (\<lambda>d. d \<noteq> toLower c) collationOrder)"

definition caseWeight :: "char \<Rightarrow> nat" where
  "caseWeight c = (if isUpper c then 1 else 0)"

definition localeCompare :: "string \<Rightarrow> string \<Rightarrow> int" where
  "localeCompare a b =
     (if map primaryWeight a < map primaryWeight b then -1
      else if map primaryWeight b < map primaryWeight a then 1
      else if map caseWeight a < map caseWeight b then -1
      else if map caseWeight b < map caseWeight a then 1
      else 0)"

text \<open>
  \<^verbatim>\<open>compare\<close> returns a number of which only the sign is used. It tests the
  prerelease fields for truthiness, so an empty tag counts as no tag; \<open>tag\<close> is the
  prerelease when it is truthy.
\<close>

definition tag :: "version \<Rightarrow> string option" where
  "tag v = (case prerelease v of None \<Rightarrow> None | Some t \<Rightarrow> if t = [] then None else Some t)"

definition compare :: "version \<Rightarrow> version \<Rightarrow> int" where
  "compare a b =
     (if major a \<noteq> major b then int (major a) - int (major b)
      else if minor a \<noteq> minor b then int (minor a) - int (minor b)
      else if patch a \<noteq> patch b then int (patch a) - int (patch b)
      else
        case (tag a, tag b) of
          (Some ta, None) \<Rightarrow> -1
        | (None, Some tb) \<Rightarrow> 1
        | (Some ta, Some tb) \<Rightarrow> localeCompare ta tb
        | (None, None) \<Rightarrow> 0)"

definition equal_versions :: "string \<Rightarrow> string \<Rightarrow> bool" where
  "equal_versions a b =
     (case (parse a, parse b) of
        (Some pa, Some pb) \<Rightarrow> compare pa pb = 0
      | _ \<Rightarrow> False)"

text \<open>
  The pattern \<^verbatim>\<open>/^(\d+)\.([x*]|(\d+)\.[x*])$/\<close> of the partial wildcards; the result
  holds the groups 1, 2 and 3.
\<close>

definition wildcardMatch :: "string \<Rightarrow> (string \<times> string \<times> string option) option" where
  "wildcardMatch s =
     (case matchDigits s of
        None \<Rightarrow> None
      | Some (g1, r1) \<Rightarrow>
          (case expectChar CHR ''.'' r1 of
             None \<Rightarrow> None
           | Some r2 \<Rightarrow>
               if r2 = ''x'' \<or> r2 = ''*'' then Some (g1, r2, None)
               else
                 (case matchDigits r2 of
                    None \<Rightarrow> None
                  | Some (g3, r3) \<Rightarrow>
                      (case expectChar CHR ''.'' r3 of
                         None \<Rightarrow> None
                       | Some r4 \<Rightarrow>
                           if r4 = ''x'' \<or> r4 = ''*''
                           then Some (g1, g3 @ ''.'' @ r4, Some g3) else None))))"

definition caretSatisfies :: "version \<Rightarrow> version \<Rightarrow> bool" where
  "caretSatisfies v r =
     (if major v \<noteq> major r then False
      else if major r = 0 then
        (if minor v \<noteq> minor r then False
         else if minor r = 0 then patch r \<le> patch v
         else 0 \<le> compare v r)
      else 0 \<le> compare v r)"

definition tildeSatisfies :: "version \<Rightarrow> version \<Rightarrow> bool" where
  "tildeSatisfies v r =
     (if major v \<noteq> major r \<or> minor v \<noteq> minor r then False else patch r \<le> patch v)"

definition satisfies :: "string \<Rightarrow> string \<Rightarrow> bool" where
  "satisfies ver rng =
     (if ver = [] \<or> rng = [] then False
      else
        case parse ver of
          None \<Rightarrow> False
        | Some v \<Rightarrow>
            if \<not> hasRangeOperator rng then
              (case parse rng of Some r \<Rightarrow> compare v r = 0 | None \<Rightarrow> False)
            else if startsWith rng ''^'' then
              (case parse (drop 1 rng) of None \<Rightarrow> False | Some r \<Rightarrow> caretSatisfies v r)
            else if startsWith rng ''~'' then
              (case parse (drop 1 rng) of None \<Rightarrow> False | Some r \<Rightarrow> tildeSatisfies v r)
            else if startsWith rng ''>='' then
              (case parse (drop 2 rng) of Some r \<Rightarrow> 0 \<le> compare v r | None \<Rightarrow> False)
            else if startsWith rng ''<='' then
              (case parse (drop 2 rng) of Some r \<Rightarrow> compare v r \<le> 0 | None \<Rightarrow> False)
            else if startsWith rng ''>'' then
              (case parse (drop 1 rng) of Some r \<Rightarrow> 0 < compare v r | None \<Rightarrow> False)
            else if startsWith rng ''<'' then
              (case parse (drop 1 rng) of Some r \<Rightarrow> compare v r < 0 | None \<Rightarrow> False)
            else if startsWith rng ''='' then
              (case parse (drop 1 rng) of Some r \<Rightarrow> compare v r = 0 | None \<Rightarrow> False)
            else if rng = ''*'' \<or> rng = ''x'' then True
            else
              case wildcardMatch rng of
                None \<Rightarrow> False
              | Some (g1, g2, g3) \<Rightarrow>
                  if major v \<noteq> parseInt g1 then False
                  else if g2 = ''x'' \<or> g2 = ''*'' then True
                  else (case g3 of Some m \<Rightarrow> minor v = parseInt m | None \<Rightarrow> False))"

definition isExactVersion :: "string \<Rightarrow> bool" where
  "isExactVersion versionSpec =
     (if versionSpec = [] then False
      else if hasRangeOperator versionSpec then False
      else parse versionSpec \<noteq> None)"

text \<open>
  The claimed order of two versions, in the words of the specification: by major, minor
  and patch number in turn; with equal numbers a version with a prerelease tag comes
  before one without; two tags are compared by \<open>tagBefore\<close>, a parameter here so that
  the same words can be read with the collation of the code or with code points.
\<close>

definition spec_before ::
    "(string \<Rightarrow> string \<Rightarrow> bool) \<Rightarrow> version \<Rightarrow> version \<Rightarrow> bool" where
  "spec_before tagBefore a b =
     (major a < major b \<or>
      (major a = major b \<and>
       (minor a < minor b \<or>
        (minor a = minor b \<and>
         (patch a < patch b \<or>
          (patch a = patch b \<and>
           (case (tag a, tag b) of
              (Some ta, None) \<Rightarrow> True
            | (Some ta, Some tb) \<Rightarrow> tagBefore ta tb
            | _ \<Rightarrow> False)))))))"

text \<open>
  The strings that the specification takes for versions: after one optional leading
  \<^verbatim>\<open>v\<close>, three non-empty runs of digits with a dot between them; whatever follows
  the third run (a prerelease tag or anything else) is ignored.
\<close>

definition spec_bareVersion :: "string \<Rightarrow> bool" where
  "spec_bareVersion s =
     (\<exists>a b c rest.
        a \<noteq> [] \<and> b \<noteq> [] \<and> c \<noteq> [] \<and>
        list_all isDigit a \<and> list_all isDigit b \<and> list_all isDigit c \<and>
        (s = a @ ''.'' @ b @ ''.'' @ c @ rest \<or> s = ''v'' @ a @ ''.'' @ b @ ''.'' @ c @ rest))"

section \<open>The IoC table of the Node scanner\<close>

text \<open>
  \<^verbatim>\<open>s.split(sep)\<close>: with a non-empty separator, the pieces between the occurrences
  of the separator, found from left to right without overlap; with the empty separator,
  the characters one by one. The loop takes the separator as its first character and the
  rest.
\<close>

fun splitLoop :: "char \<Rightarrow> string \<Rightarrow> string \<Rightarrow> string \<Rightarrow> string list" where
  "splitLoop d ds piece [] = [piece]"
| "splitLoop d ds piece (c # cs) =
     (if c = d \<and> take (length ds) cs = ds
      then piece # splitLoop d ds [] (drop (length ds) cs)
      else splitLoop d ds (piece @ [c]) cs)"

definition split :: "string \<Rightarrow> string \<Rightarrow> string list" where
  "split s sep = (case sep of [] \<Rightarrow> map (\<lambda>c. [c]) s | d # ds \<Rightarrow> splitLoop d ds [] s)"

text \<open>\<^verbatim>\<open>part.replace(/^=\s*/, '')\<close>: a leading \<^verbatim>\<open>=\<close> goes, with the white space after it.\<close>

definition stripEquals :: "string \<Rightarrow> string" where
  "stripEquals s =
     (case s of [] \<Rightarrow> [] | c # cs \<Rightarrow> if c = CHR ''='' then dropWhile isJsSpace cs else s)"

text \<open>The loop that pushes the versions of one row onto the array of the package.\<close>

fun pushVersions :: "string list \<Rightarrow> string list \<Rightarrow> string list" where
  "pushVersions versions [] = versions"
| "pushVersions versions (versionPart # rest) =
     (let v = trim (stripEquals versionPart)
      in if v \<noteq> [] then pushVersions (versions @ [v]) rest
         else pushVersions versions rest)"

text \<open>
  The body of the loop over the lines. The destructuring
  \<^verbatim>\<open>[packageName, versionSpec] = line.split(',')\<close> takes the first two cells; a
  missing cell is \<^verbatim>\<open>undefined\<close>, which the test treats like the empty string.
  The entry of the package is created before its versions are looked at.
\<close>

definition parseLine :: "(string \<rightharpoonup> string list) \<Rightarrow> string \<Rightarrow> (string \<rightharpoonup> string list)" where
  "parseLine iocMap rawLine =
     (let line = trim rawLine
      in if line = [] then iocMap
         else
           case split line '','' of
             packageName # versionSpec # _ \<Rightarrow>
               if packageName = [] \<or> versionSpec = [] then iocMap
               else
                 let pkgName = trim packageName;
                     versionParts = map trim (split versionSpec ''||'');
                     iocMap1 = (if iocMap pkgName = None then iocMap(pkgName \<mapsto> []) else iocMap);
                     versions = (case iocMap1 pkgName of Some vs \<Rightarrow> vs | None \<Rightarrow> [])
                 in iocMap1(pkgName \<mapsto> pushVersions versions versionParts)
           | _ \<Rightarrow> iocMap)"

text \<open>\<^verbatim>\<open>parseIoCCsv\<close>: the lines of the text, the header line skipped.\<close>

definition parseIoCCsv :: "string \<Rightarrow> (string \<rightharpoonup> string list)" where
  "parseIoCCsv csvText = foldl parseLine Map.empty (drop 1 (split csvText [CHR 0x0A]))"

section \<open>The IoC table of the Go scanner\<close>

text \<open>
  \<^verbatim>\<open>strings.TrimSpace\<close> removes the leading and the trailing white space of
  Unicode, decoding UTF-8: the six ASCII characters as single bytes, the next-line
  character and the no-break space as two bytes, and the spaces from U+1680 to U+3000 as
  three bytes. A byte from 128 on that starts no such sequence is kept, and ends the
  trimming. The loop from the right reads the string reversed.
\<close>

definition isAsciiSpace :: "char \<Rightarrow> bool" where
  "isAsciiSpace c = (of_char c \<in> set [9, 10, 11, 12, 13, 32 :: nat])"

definition isSpace2 :: "char \<Rightarrow> char \<Rightarrow> bool" where
  "isSpace2 a b = (of_char a = (0xC2 :: nat) \<and> of_char b \<in> set [0x85, 0xA0 :: nat])"

definition isSpace3 :: "char \<Rightarrow> char \<Rightarrow> char \<Rightarrow> bool" where
  "isSpace3 a b c =
     ((of_char a, of_char b, of_char c) \<in>
        set [(0xE1, 0x9A, 0x80), (0xE2, 0x80, 0x80), (0xE2, 0x80, 0x81), (0xE2, 0x80, 0x82),
             (0xE2, 0x80, 0x83), (0xE2, 0x80, 0x84), (0xE2, 0x80, 0x85), (0xE2, 0x80, 0x86),
             (0xE2, 0x80, 0x87), (0xE2, 0x80, 0x88), (0xE2, 0x80, 0x89), (0xE2, 0x80, 0x8A),
             (0xE2, 0x80, 0xA8), (0xE2, 0x80, 0xA9), (0xE2, 0x80, 0xAF), (0xE2, 0x81, 0x9F),
             (0xE3, 0x80, 0x80) :: nat \<times> nat \<times> nat])"

fun trimLeftSpace :: "string \<Rightarrow> string" where
  "trimLeftSpace (a # b # c # s) =
     (if isAsciiSpace a then trimLeftSpace (b # c # s)
      else if isSpace2 a b then trimLeftSpace (c # s)
      else if isSpace3 a b c then trimLeftSpace s
      else a # b # c # s)"
| "trimLeftSpace [a, b] =
     (if isAsciiSpace a then trimLeftSpace [b]
      else if isSpace2 a b then []
      else [a, b])"
| "trimLeftSpace [a] = (if isAsciiSpace a then [] else [a])"
| "trimLeftSpace [] = []"

fun trimRightSpace :: "string \<Rightarrow> string" where
  "trimRightSpace (c # b # a # s) =
     (if isAsciiSpace c then trimRightSpace (b # a # s)
      else if isSpace2 b c then trimRightSpace (a # s)
      else if isSpace3 a b c then trimRightSpace s
      else c # b # a # s)"
| "trimRightSpace [c, b] =
     (if isAsciiSpace c then trimRightSpace [b]
      else if isSpace2 b c then []
      else [c, b])"
| "trimRightSpace [c] = (if isAsciiSpace c then [] else [c])"
| "trimRightSpace [] = []"

definition TrimSpace :: "string \<Rightarrow> string" where
  "TrimSpace s = rev (trimRightSpace (rev (trimLeftSpace s)))"

definition HasPrefix :: "string \<Rightarrow> string \<Rightarrow> bool" where
  "HasPrefix s p = (take (length p) s = p)"

definition TrimPrefix :: "string \<Rightarrow> string \<Rightarrow> string" where
  "TrimPrefix s p = (if HasPrefix s p then drop (length p) s else s)"

definition ContainsAny :: "string \<Rightarrow> string \<Rightarrow> bool" where
  "ContainsAny s chars = list_ex (\<lambda>c. c \<in> set chars) s"

text \<open>
  \<^verbatim>\<open>ParseCSV\<close> reads records from a \<^verbatim>\<open>csv.Reader\<close>, which belongs to the
  standard library. The model takes what the successive calls of \<^verbatim>\<open>Read\<close>
  return: a record or an error, and the end of the list is \<^verbatim>\<open>io.EOF\<close>.
\<close>

datatype csvError = ReadHeaderError string | ReadRecordError string

fun parseRecords ::
    "(string \<rightharpoonup> string list) \<Rightarrow> (string + string list) list \<Rightarrow>
     csvError + (string \<rightharpoonup> string list)" where
  "parseRecords iocMap [] = Inr iocMap"
| "parseRecords iocMap (Inl err # rest) = Inl (ReadRecordError err)"
| "parseRecords iocMap (Inr record # rest) =
     (if length record < 2 then parseRecords iocMap rest
      else
        let packageName = TrimSpace (record ! 0);
            versionSpec = TrimSpace (record ! 1)
        in if packageName = [] \<or> versionSpec = [] then parseRecords iocMap rest
           else
             let v = TrimSpace (TrimPrefix versionSpec ''='')
             in parseRecords
                  (iocMap(packageName \<mapsto>
                     (case iocMap packageName of None \<Rightarrow> [] | Some vs \<Rightarrow> vs) @ [v]))
                  rest)"

definition ParseCSV ::
    "(string + string list) list \<Rightarrow> csvError + (string \<rightharpoonup> string list)" where
  "ParseCSV reads =
     (case reads of
        [] \<Rightarrow> Inr Map.empty
      | Inl err # _ \<Rightarrow> Inl (ReadHeaderError err)
      | Inr header # rest \<Rightarrow> parseRecords Map.empty rest)"

section \<open>The matcher of the Node scanner\<close>

text \<open>
  A declared dependency as \<^verbatim>\<open>parsePackageJson\<close> produces it, and a match as the
  matcher pushes it; \<open>declaredSpec\<close> is present on POTENTIAL matches only.
\<close>

record dependency =
  name :: string
  versionSpec :: string
  depType :: string
  filePath :: string

record match =
  packageName :: string
  version :: string
  severity :: string
  location :: string
  declaredSpec :: "string option"

definition potentialMatch :: "dependency \<Rightarrow> string \<Rightarrow> match" where
  "potentialMatch dep iocVersion =
     \<lparr>packageName = name dep, version = iocVersion, severity = ''POTENTIAL'',
      location = filePath dep, declaredSpec = Some (versionSpec dep)\<rparr>"

text \<open>
  The inner loop of \<^verbatim>\<open>matchPotentialDependencies\<close> over the compromised versions
  of one package: the first version that satisfies the range is pushed, and the
  \<^verbatim>\<open>break\<close> (``only report once per dependency'') ends the loop.
\<close>

fun potentialVersionsLoop :: "dependency \<Rightarrow> match list \<Rightarrow> string list \<Rightarrow> match list" where
  "potentialVersionsLoop dep matches [] = matches"
| "potentialVersionsLoop dep matches (iocVersion # rest) =
     (if satisfies iocVersion (versionSpec dep)
      then matches @ [potentialMatch dep iocVersion]
      else potentialVersionsLoop dep matches rest)"

fun potentialDependenciesLoop ::
    "(string \<rightharpoonup> string list) \<Rightarrow> match list \<Rightarrow> dependency list \<Rightarrow> match list" where
  "potentialDependenciesLoop iocMap matches [] = matches"
| "potentialDependenciesLoop iocMap matches (dep # deps) =
     (case iocMap (name dep) of
        None \<Rightarrow> potentialDependenciesLoop iocMap matches deps
      | Some iocVersions \<Rightarrow>
          if iocVersions = [] then potentialDependenciesLoop iocMap matches deps
          else if isExactVersion (versionSpec dep)
          then potentialDependenciesLoop iocMap matches deps
          else potentialDependenciesLoop iocMap
                 (potentialVersionsLoop dep matches iocVersions) deps)"

definition matchPotentialDependencies ::
    "dependency list \<Rightarrow> (string \<rightharpoonup> string list) \<Rightarrow> match list" where
  "matchPotentialDependencies dependencies iocMap =
     potentialDependenciesLoop iocMap [] dependencies"

section \<open>The matcher of the Go scanner\<close>

record Dependency =
  Name :: string
  VersionSpec :: string
  Type :: string
  FilePath :: string

text \<open>\<^verbatim>\<open>Severity\<close> is a string type in Go, with three constants.\<close>

record Match =
  PackageName :: string
  Version :: string
  Severity :: string
  Location :: string
  DeclaredSpec :: string

definition SeverityDirect :: string where
  "SeverityDirect = ''DIRECT''"

definition SeverityTransitive :: string where
  "SeverityTransitive = ''TRANSITIVE''"

definition SeverityPotential :: string where
  "SeverityPotential = ''POTENTIAL''"

text \<open>
  The Go matcher parses versions and constraints with a third-party semver package. Its
  three entry points are parameters of the model: \<^verbatim>\<open>NewVersion\<close> and
  \<^verbatim>\<open>NewConstraint\<close> return a value or fail, and \<^verbatim>\<open>Validate\<close> returns a
  verdict with a list of reasons.
\<close>

record ('v, 'c) semver =
  NewVersion :: "string \<Rightarrow> 'v option"
  NewConstraint :: "string \<Rightarrow> 'c option"
  Validate :: "'c \<Rightarrow> 'v \<Rightarrow> bool \<times> string list"

definition cleanVersionSpec :: "string \<Rightarrow> string" where
  "cleanVersionSpec spec0 =
     (let spec1 = TrimSpace spec0;
          spec2 = TrimPrefix spec1 ''^'';
          spec3 = TrimPrefix spec2 ''~'';
          spec4 = TrimPrefix spec3 ''>='';
          spec5 = TrimPrefix spec4 ''<='';
          spec6 = TrimPrefix spec5 ''>'';
          spec7 = TrimPrefix spec6 ''<'';
          spec8 = TrimPrefix spec7 ''=''
      in TrimSpace spec8)"

definition isExactVersion_go :: "('v, 'c) semver \<Rightarrow> string \<Rightarrow> bool" where
  "isExactVersion_go lib spec0 =
     (let spec = TrimSpace spec0
      in if ContainsAny spec ''^~><*|'' then False
         else if HasPrefix spec ''file:'' \<or> HasPrefix spec ''git:'' \<or>
                 HasPrefix spec ''http:'' \<or> HasPrefix spec ''https:'' \<or>
                 spec = ''latest'' \<or> spec = []
         then False
         else NewVersion lib spec \<noteq> None)"

definition isSemverRange :: "('v, 'c) semver \<Rightarrow> string \<Rightarrow> bool" where
  "isSemverRange lib spec0 =
     (let spec = TrimSpace spec0
      in if HasPrefix spec ''file:'' \<or> HasPrefix spec ''git:'' \<or>
            HasPrefix spec ''http:'' \<or> HasPrefix spec ''https:'' \<or>
            spec = ''latest'' \<or> spec = ''*'' \<or> spec = []
         then False
         else NewConstraint lib spec \<noteq> None)"

definition versionSatisfiesRange :: "('v, 'c) semver \<Rightarrow> string \<Rightarrow> string \<Rightarrow> bool" where
  "versionSatisfiesRange lib ver rangeSpec =
     (case NewVersion lib ver of
        None \<Rightarrow> False
      | Some v \<Rightarrow>
          (case NewConstraint lib rangeSpec of
             None \<Rightarrow> ver = cleanVersionSpec rangeSpec
           | Some constraint \<Rightarrow>
               (case Validate lib constraint v of
                  (valid, errs) \<Rightarrow> if 0 < length errs then False else valid)))"

definition potentialMatch_go :: "Dependency \<Rightarrow> string \<Rightarrow> Match" where
  "potentialMatch_go dep vulnVer =
     \<lparr>PackageName = Name dep, Version = vulnVer, Severity = SeverityPotential,
      Location = FilePath dep, DeclaredSpec = VersionSpec dep\<rparr>"

text \<open>
  The inner loop of \<^verbatim>\<open>MatchPotential\<close> appends a match for every compromised
  version that satisfies the range; nothing ends it early.
\<close>

fun vulnerableVersionsLoop ::
    "('v, 'c) semver \<Rightarrow> Dependency \<Rightarrow> Match list \<Rightarrow> string list \<Rightarrow> Match list" where
  "vulnerableVersionsLoop lib dep matches [] = matches"
| "vulnerableVersionsLoop lib dep matches (vulnVer # rest) =
     (if versionSatisfiesRange lib vulnVer (VersionSpec dep)
      then vulnerableVersionsLoop lib dep (matches @ [potentialMatch_go dep vulnVer]) rest
      else vulnerableVersionsLoop lib dep matches rest)"

text \<open>
  The outer loop runs over the dependencies that \<^verbatim>\<open>ExtractDependencies\<close> returns
  (in the order of Go's map iteration, which the model takes as given);
  \<^verbatim>\<open>GetVersions\<close> is the lookup in the table.
\<close>

fun matchPotentialLoop ::
    "('v, 'c) semver \<Rightarrow> (string \<rightharpoonup> string list) \<Rightarrow> Match list \<Rightarrow> Dependency list \<Rightarrow>
     Match list" where
  "matchPotentialLoop lib iocDB matches [] = matches"
| "matchPotentialLoop lib iocDB matches (dep # deps) =
     (if isExactVersion_go lib (VersionSpec dep) then matchPotentialLoop lib iocDB matches deps
      else if \<not> isSemverRange lib (VersionSpec dep)
      then matchPotentialLoop lib iocDB matches deps
      else
        case iocDB (Name dep) of
          None \<Rightarrow> matchPotentialLoop lib iocDB matches deps
        | Some vulnerableVersions \<Rightarrow>
            matchPotentialLoop lib iocDB
              (vulnerableVersionsLoop lib dep matches vulnerableVersions) deps)"

definition MatchPotential ::
    "('v, 'c) semver \<Rightarrow> Dependency list \<Rightarrow> (string \<rightharpoonup> string list) \<Rightarrow> Match list" where
  "MatchPotential lib deps iocDB = matchPotentialLoop lib iocDB [] deps"

text \<open>
  An instance of the library interface built from the Node module, on which the Go
  matcher can be run: versions and constraints are kept as their text.
\<close>

definition nodeSemver :: "(string, string) semver" where
  "nodeSemver =
     \<lparr>NewVersion = (\<lambda>s. if parse s = None then None else Some s),
      NewConstraint = (\<lambda>s. if hasRangeOperator s \<or> parse s \<noteq> None then Some s else None),
      Validate = (\<lambda>c v. if satisfies v c then (True, []) else (False, [''no match'']))\<rparr>"

text \<open>
  \<^verbatim>\<open>DeduplicateMatches\<close>: the key of a match is the text
  \<^verbatim>\<open>fmt.Sprintf("%s@%s:%s", PackageName, Version, Severity)\<close>, and \<open>seen\<close> is
  the map from keys to booleans.
\<close>

definition matchKey :: "Match \<Rightarrow> string" where
  "matchKey m = PackageName m @ ''@'' @ Version m @ '':'' @ Severity m"

fun deduplicateLoop :: "(string \<Rightarrow> bool) \<Rightarrow> Match list \<Rightarrow> Match list \<Rightarrow> Match list" where
  "deduplicateLoop seen result [] = result"
| "deduplicateLoop seen result (m # matches) =
     (let key = matchKey m
      in if \<not> seen key then deduplicateLoop (seen(key := True)) (result @ [m]) matches
         else deduplicateLoop seen result matches)"

definition DeduplicateMatches :: "Match list \<Rightarrow> Match list" where
  "DeduplicateMatches matches = deduplicateLoop (\<lambda>key. False) [] matches"

section \<open>Invariants of the tables\<close>

text \<open>No list of the table holds an empty version string.\<close>

definition noEmptyVersion :: "(string \<rightharpoonup> string list) \<Rightarrow> bool" where
  "noEmptyVersion m = (\<forall>n vs. m n = Some vs \<longrightarrow> [] \<notin> set vs)"

text \<open>No name of the table is empty and none has an empty list.\<close>

definition noEmptyEntry :: "(string \<rightharpoonup> string list) \<Rightarrow> bool" where
  "noEmptyEntry m = (\<forall>n vs. m n = Some vs \<longrightarrow> n \<noteq> [] \<and> vs \<noteq> [])"

section \<open>Properties of the semver module\<close>

lemma matchDigits_non_digit: "\<not> isDigit c \<Longrightarrow> matchDigits (c # s) = None"
  by (simp add: matchDigits_def)

lemma space_not_digit: "\<not> isDigit CHR '' ''"
  by (simp add: isDigit_def)

lemma parse_Nil: "parse [] = None"
  by (simp add: parse_def)

lemma parse_leading_space: "parse (CHR '' '' # s) = None"
  by (simp add: parse_def stripLeadingV_def matchDigits_non_digit space_not_digit)

lemma wildcardMatch_leading_space: "wildcardMatch (CHR '' '' # s) = None"
  by (simp add: wildcardMatch_def matchDigits_non_digit space_not_digit)

lemma startsWith_Cons: "startsWith (c # s) (d # p) = (c = d \<and> startsWith s p)"
  by (simp add: startsWith_def)

lemma startsWith_Nil: "startsWith s []"
  by (simp add: startsWith_def)

lemma hasRangeOperator_iff: "hasRangeOperator s \<longleftrightarrow> set s \<inter> set ''^~><=*x'' \<noteq> {}"
  by (auto simp: hasRangeOperator_def list_ex_iff isRangeOperatorChar_def)

subsection \<open>What parses\<close>

text \<open>
  \<^verbatim>\<open>parse\<close> succeeds exactly on the strings that the specification takes for
  versions.
\<close>

lemma matchDigits_Some:
  assumes "matchDigits s = Some (m, r)"
  shows "m \<noteq> [] \<and> list_all isDigit m \<and> s = m @ r"
proof -
  from assms have m: "m = takeWhile isDigit s" and r: "r = dropWhile isDigit s" and n: "m \<noteq> []"
    by (auto simp: matchDigits_def Let_def split: if_splits)
  have "list_all isDigit (takeWhile isDigit s)"
    by (auto simp: list_all_iff dest: set_takeWhileD)
  with m r n show ?thesis by simp
qed

lemma expectChar_Some: "expectChar c s = Some r \<Longrightarrow> s = c # r"
  by (cases s) (auto simp: expectChar_def split: if_splits)

lemma stripLeadingV_cases: "s = stripLeadingV s \<or> s = CHR ''v'' # stripLeadingV s"
  by (cases s) (auto simp: stripLeadingV_def)

lemma dot_not_digit: "\<not> isDigit CHR ''.''"
  by (simp add: isDigit_def)

lemma v_not_digit: "\<not> isDigit CHR ''v''"
  by (simp add: isDigit_def)

lemma matchDigits_run:
  assumes "a \<noteq> []" and "list_all isDigit a"
  shows "matchDigits (a @ CHR ''.'' # u) = Some (a, CHR ''.'' # u)"
proof -
  have p: "\<And>x. x \<in> set a \<Longrightarrow> isDigit x" using assms(2) by (simp add: list_all_iff)
  have "takeWhile isDigit (a @ CHR ''.'' # u) = a"
    using p by (simp add: takeWhile_append2 dot_not_digit)
  moreover have "dropWhile isDigit (a @ CHR ''.'' # u) = CHR ''.'' # u"
    using p by (simp add: dropWhile_append2 dot_not_digit)
  ultimately show ?thesis using assms(1) by (simp add: matchDigits_def)
qed

lemma matchDigits_last_run:
  assumes "c \<noteq> []" and "list_all isDigit c"
  shows "matchDigits (c @ rest) \<noteq> None"
proof -
  have p: "\<And>x. x \<in> set c \<Longrightarrow> isDigit x" using assms(2) by (simp add: list_all_iff)
  have "takeWhile isDigit (c @ rest) = c @ takeWhile isDigit rest"
    using p by (simp add: takeWhile_append2)
  with assms(1) show ?thesis by (simp add: matchDigits_def)
qed

lemma parse_of_bareVersion:
  assumes "a \<noteq> []" "b \<noteq> []" "c \<noteq> []"
    and "list_all isDigit a" "list_all isDigit b" "list_all isDigit c"
    and "stripLeadingV s = a @ ''.'' @ b @ ''.'' @ c @ rest"
  shows "parse s \<noteq> None"
proof -
  have ne: "s \<noteq> []" using assms(1,7) by (cases s) (auto simp: stripLeadingV_def)
  have 1: "matchDigits (stripLeadingV s) = Some (a, CHR ''.'' # b @ CHR ''.'' # c @ rest)"
    using matchDigits_run [OF assms(1,4)] assms(7) by simp
  have 2: "matchDigits (b @ CHR ''.'' # c @ rest) = Some (b, CHR ''.'' # c @ rest)"
    by (rule matchDigits_run [OF assms(2,5)])
  have "matchDigits (c @ rest) \<noteq> None" by (rule matchDigits_last_run [OF assms(3,6)])
  then obtain m3 r3 where 3: "matchDigits (c @ rest) = Some (m3, r3)" by auto
  show ?thesis
    using ne 1 2 3 by (simp add: parse_def expectChar_def)
qed

lemma parse_success_iff: "parse s \<noteq> None \<longleftrightarrow> spec_bareVersion s"
proof
  assume "parse s \<noteq> None"
  then obtain v where pv: "parse s = Some v" by auto
  then have ne: "s \<noteq> []" by (auto simp: parse_def)
  from pv ne obtain m1 r1 where 1: "matchDigits (stripLeadingV s) = Some (m1, r1)"
    by (cases "matchDigits (stripLeadingV s)") (auto simp: parse_def)
  from pv ne 1 obtain r1' where 2: "expectChar CHR ''.'' r1 = Some r1'"
    by (cases "expectChar CHR ''.'' r1") (auto simp: parse_def)
  from pv ne 1 2 obtain m2 r2 where 3: "matchDigits r1' = Some (m2, r2)"
    by (cases "matchDigits r1'") (auto simp: parse_def)
  from pv ne 1 2 3 obtain r2' where 4: "expectChar CHR ''.'' r2 = Some r2'"
    by (cases "expectChar CHR ''.'' r2") (auto simp: parse_def)
  from pv ne 1 2 3 4 obtain m3 r3 where 5: "matchDigits r2' = Some (m3, r3)"
    by (cases "matchDigits r2'") (auto simp: parse_def)
  from matchDigits_Some [OF 1] matchDigits_Some [OF 3] matchDigits_Some [OF 5]
    expectChar_Some [OF 2] expectChar_Some [OF 4]
  have d: "m1 \<noteq> []" "m2 \<noteq> []" "m3 \<noteq> []"
      "list_all isDigit m1" "list_all isDigit m2" "list_all isDigit m3"
    and t: "stripLeadingV s = m1 @ ''.'' @ m2 @ ''.'' @ m3 @ r3"
    by simp_all
  from stripLeadingV_cases [of s] t
  have "s = m1 @ ''.'' @ m2 @ ''.'' @ m3 @ r3 \<or> s = ''v'' @ m1 @ ''.'' @ m2 @ ''.'' @ m3 @ r3"
    by auto
  with d show "spec_bareVersion s"
    unfolding spec_bareVersion_def by blast
next
  assume "spec_bareVersion s"
  then obtain a b c rest where d: "a \<noteq> []" "b \<noteq> []" "c \<noteq> []"
      "list_all isDigit a" "list_all isDigit b" "list_all isDigit c"
    and s: "s = a @ ''.'' @ b @ ''.'' @ c @ rest \<or> s = ''v'' @ a @ ''.'' @ b @ ''.'' @ c @ rest"
    unfolding spec_bareVersion_def by blast
  from d(1,4) obtain x xs where a: "a = x # xs" and x: "isDigit x"
    by (cases a) auto
  from x have "x \<noteq> CHR ''v''" using v_not_digit by auto
  with s a have "stripLeadingV s = a @ ''.'' @ b @ ''.'' @ c @ rest"
    by (auto simp: stripLeadingV_def)
  with d show "parse s \<noteq> None" by (rule parse_of_bareVersion)
qed

subsection \<open>The order of versions\<close>

text \<open>
  A tag that \<^verbatim>\<open>parse\<close> returns is not empty and holds only letters, digits, dots
  and hyphens: the characters on which the collation is modelled.
\<close>

lemma matchPrerelease_alphabet:
  "matchPrerelease s = Some t \<Longrightarrow> t \<noteq> [] \<and> list_all isPrereleaseChar t"
proof -
  assume a: "matchPrerelease s = Some t"
  then obtain c cs where s: "s = c # cs" by (cases s) (simp_all add: matchPrerelease_def)
  with a have t: "t = takeWhile isPrereleaseChar cs" and n: "takeWhile isPrereleaseChar cs \<noteq> []"
    by (auto simp: matchPrerelease_def split: if_splits)
  have "list_all isPrereleaseChar (takeWhile isPrereleaseChar cs)"
    by (auto simp: list_all_iff dest: set_takeWhileD)
  with t n show ?thesis by simp
qed

lemma parse_prerelease:
  assumes "parse s = Some v"
  shows "\<exists>r. prerelease v = matchPrerelease r"
proof -
  from assms have ne: "s \<noteq> []" by (auto simp: parse_def)
  from assms ne obtain m1 r1 where 1: "matchDigits (stripLeadingV s) = Some (m1, r1)"
    by (cases "matchDigits (stripLeadingV s)") (auto simp: parse_def)
  from assms ne 1 obtain r1' where 2: "expectChar CHR ''.'' r1 = Some r1'"
    by (cases "expectChar CHR ''.'' r1") (auto simp: parse_def)
  from assms ne 1 2 obtain m2 r2 where 3: "matchDigits r1' = Some (m2, r2)"
    by (cases "matchDigits r1'") (auto simp: parse_def)
  from assms ne 1 2 3 obtain r2' where 4: "expectChar CHR ''.'' r2 = Some r2'"
    by (cases "expectChar CHR ''.'' r2") (auto simp: parse_def)
  from assms ne 1 2 3 4 obtain m3 r3 where 5: "matchDigits r2' = Some (m3, r3)"
    by (cases "matchDigits r2'") (auto simp: parse_def)
  from assms ne 1 2 3 4 5 have "prerelease v = matchPrerelease r3"
    by (auto simp: parse_def)
  then show ?thesis by blast
qed

lemma parse_tag_alphabet:
  assumes "parse s = Some v" and "prerelease v = Some t"
  shows "t \<noteq> [] \<and> list_all isPrereleaseChar t"
proof -
  from parse_prerelease [OF assms(1)] obtain r where "prerelease v = matchPrerelease r" by blast
  with assms(2) have "matchPrerelease r = Some t" by simp
  then show ?thesis by (rule matchPrerelease_alphabet)
qed

lemma localeCompare_flip: "0 < localeCompare s t \<longleftrightarrow> localeCompare t s < 0"
  by (auto simp: localeCompare_def dest: less_asym)

lemma compare_negative:
  "compare a b < 0 \<longleftrightarrow> spec_before (\<lambda>s t. localeCompare s t < 0) a b"
  by (cases "tag a"; cases "tag b") (auto simp: compare_def spec_before_def)

lemma compare_positive:
  "0 < compare a b \<longleftrightarrow> spec_before (\<lambda>s t. localeCompare s t < 0) b a"
  by (cases "tag a"; cases "tag b")
     (auto simp: compare_def spec_before_def localeCompare_flip)

lemma compare_nonneg: "0 \<le> compare v r \<longleftrightarrow> \<not> spec_before (\<lambda>s t. localeCompare s t < 0) v r"
  using compare_negative [of v r] by auto

text \<open>
  C5, as the code has it. \<^verbatim>\<open>compare\<close> orders two versions by major, minor and
  patch number in turn; with equal numbers a version without a prerelease tag comes after
  one with a tag; and two tags are compared by \<^verbatim>\<open>localeCompare\<close>, the collation of
  the host, not by code points: the result is negative exactly when the first version
  comes before the second in that order, positive exactly when it comes after, and zero
  otherwise. Under the collation the tag \<^verbatim>\<open>a\<close> comes before the tag \<^verbatim>\<open>B\<close>.
\<close>

theorem compare_order:
  "(compare a b < 0 \<longleftrightarrow> spec_before (\<lambda>s t. localeCompare s t < 0) a b) \<and>
   (0 < compare a b \<longleftrightarrow> spec_before (\<lambda>s t. localeCompare s t < 0) b a) \<and>
   (compare a b = 0 \<longleftrightarrow>
      \<not> spec_before (\<lambda>s t. localeCompare s t < 0) a b \<and>
      \<not> spec_before (\<lambda>s t. localeCompare s t < 0) b a) \<and>
   compare \<lparr>major = 1, minor = 2, patch = 3, prerelease = Some ''a''\<rparr>
           \<lparr>major = 1, minor = 2, patch = 3, prerelease = Some ''B''\<rparr> < 0 \<and>
   0 < compare \<lparr>major = 1, minor = 2, patch = 3, prerelease = Some ''B''\<rparr>
               \<lparr>major = 1, minor = 2, patch = 3, prerelease = Some ''a''\<rparr>"
proof -
  have z: "compare a b = 0 \<longleftrightarrow> \<not> compare a b < 0 \<and> \<not> 0 < compare a b" by auto
  have e1: "compare \<lparr>major = 1, minor = 2, patch = 3, prerelease = Some ''a''\<rparr>
           \<lparr>major = 1, minor = 2, patch = 3, prerelease = Some ''B''\<rparr> < 0"
    by code_simp
  have e2: "0 < compare \<lparr>major = 1, minor = 2, patch = 3, prerelease = Some ''B''\<rparr>
               \<lparr>major = 1, minor = 2, patch = 3, prerelease = Some ''a''\<rparr>"
    by code_simp
  show ?thesis
    unfolding z using compare_negative [of a b] compare_positive [of a b] e1 e2 by blast
qed

text \<open>
  With equal numbers and the tags \<^verbatim>\<open>B\<close> and \<^verbatim>\<open>a\<close>, the order by code points
  puts the first version before the second (\<^verbatim>\<open>B\<close> is the smaller string), while
  \<^verbatim>\<open>compare\<close> returns a positive number: it does not implement the order by
  code points.
\<close>

theorem compare_code_point_counterexample:
  "(''B'' :: string) < ''a'' \<and>
   \<not> (compare \<lparr>major = 1, minor = 2, patch = 3, prerelease = Some ''B''\<rparr>
               \<lparr>major = 1, minor = 2, patch = 3, prerelease = Some ''a''\<rparr> < 0
       \<longleftrightarrow> spec_before (\<lambda>s t. s < t)
             \<lparr>major = 1, minor = 2, patch = 3, prerelease = Some ''B''\<rparr>
             \<lparr>major = 1, minor = 2, patch = 3, prerelease = Some ''a''\<rparr>)"
proof -
  have c: "compare \<lparr>major = 1, minor = 2, patch = 3, prerelease = Some ''B''\<rparr>
               \<lparr>major = 1, minor = 2, patch = 3, prerelease = Some ''a''\<rparr> = 1"
    by code_simp
  have s: "spec_before (\<lambda>s t. s < t)
             \<lparr>major = 1, minor = 2, patch = 3, prerelease = Some ''B''\<rparr>
             \<lparr>major = 1, minor = 2, patch = 3, prerelease = Some ''a''\<rparr>"
    by (simp add: spec_before_def tag_def)
  have l: "(''B'' :: string) < ''a''" by simp
  from c s l show ?thesis by simp
qed

subsection \<open>Range satisfaction\<close>

text \<open>
  C6. Caret ranges lock the major number, and below 1.0.0 the minor number too:
  \<^verbatim>\<open>0.2.3\<close> satisfies \<^verbatim>\<open>^0.2.0\<close> and \<^verbatim>\<open>0.3.0\<close> does not;
  \<^verbatim>\<open>1.5.0\<close> satisfies \<^verbatim>\<open>^1.0.0\<close> and \<^verbatim>\<open>2.0.0\<close> does not. In general,
  for a range \<^verbatim>\<open>^r\<close> the major numbers must be equal; when the major number of
  \<open>r\<close> is 0 the minor numbers must be equal too, and when its minor number is also 0
  only the patch number may grow; in every other case a version satisfies exactly when it
  compares greater than or equal to \<open>r\<close>, that is, when it does not come before
  \<open>r\<close> in the order of versions: so \<^verbatim>\<open>1.0.0\<close> and \<^verbatim>\<open>1.4.9\<close> do not
  satisfy \<^verbatim>\<open>^1.5.0\<close>, \<^verbatim>\<open>0.2.0\<close> does not satisfy \<^verbatim>\<open>^0.2.3\<close>, and
  \<^verbatim>\<open>1.2.3-beta\<close> does not satisfy \<^verbatim>\<open>^1.2.3\<close>. A version or an operand
  that does not parse satisfies nothing.
\<close>

theorem satisfies_caret_lock_down:
  "satisfies ''0.2.3'' ''^0.2.0'' \<and> \<not> satisfies ''0.3.0'' ''^0.2.0'' \<and>
   satisfies ''1.5.0'' ''^1.0.0'' \<and> \<not> satisfies ''2.0.0'' ''^1.0.0'' \<and>
   \<not> satisfies ''1.0.0'' ''^1.5.0'' \<and> \<not> satisfies ''1.4.9'' ''^1.5.0'' \<and>
   \<not> satisfies ''0.2.0'' ''^0.2.3'' \<and>
   satisfies ''0.0.5'' ''^0.0.3'' \<and> \<not> satisfies ''0.0.2'' ''^0.0.3'' \<and>
   \<not> satisfies ''1.2.3-beta'' ''^1.2.3'' \<and> satisfies ''1.2.3'' ''^1.2.3-beta'' \<and>
   satisfies ver (CHR ''^'' # rest) =
     (case parse ver of
        None \<Rightarrow> False
      | Some v \<Rightarrow>
          (case parse rest of
             None \<Rightarrow> False
           | Some r \<Rightarrow>
               major v = major r \<and>
               (if major r = 0
                then minor v = minor r \<and>
                     (if minor r = 0 then patch r \<le> patch v
                      else \<not> spec_before (\<lambda>s t. localeCompare s t < 0) v r)
                else \<not> spec_before (\<lambda>s t. localeCompare s t < 0) v r))) \<and>
   (0 \<le> compare a b \<longleftrightarrow> \<not> spec_before (\<lambda>s t. localeCompare s t < 0) a b)"
proof -
  have e1: "satisfies ''0.2.3'' ''^0.2.0''" by code_simp
  have e2: "\<not> satisfies ''0.3.0'' ''^0.2.0''" by code_simp
  have e3: "satisfies ''1.5.0'' ''^1.0.0''" by code_simp
  have e4: "\<not> satisfies ''2.0.0'' ''^1.0.0''" by code_simp
  have e5: "\<not> satisfies ''1.0.0'' ''^1.5.0''" by code_simp
  have e6: "\<not> satisfies ''1.4.9'' ''^1.5.0''" by code_simp
  have e7: "\<not> satisfies ''0.2.0'' ''^0.2.3''" by code_simp
  have e8: "satisfies ''0.0.5'' ''^0.0.3''" by code_simp
  have e9: "\<not> satisfies ''0.0.2'' ''^0.0.3''" by code_simp
  have e10: "\<not> satisfies ''1.2.3-beta'' ''^1.2.3''" by code_simp
  have e11: "satisfies ''1.2.3'' ''^1.2.3-beta''" by code_simp
  have op: "hasRangeOperator (CHR ''^'' # rest)"
    by (simp add: hasRangeOperator_def isRangeOperatorChar_def)
  have g: "satisfies ver (CHR ''^'' # rest) =
     (case parse ver of
        None \<Rightarrow> False
      | Some v \<Rightarrow>
          (case parse rest of
             None \<Rightarrow> False
           | Some r \<Rightarrow>
               major v = major r \<and>
               (if major r = 0
                then minor v = minor r \<and>
                     (if minor r = 0 then patch r \<le> patch v
                      else \<not> spec_before (\<lambda>s t. localeCompare s t < 0) v r)
                else \<not> spec_before (\<lambda>s t. localeCompare s t < 0) v r)))"
    by (simp add: satisfies_def op parse_Nil startsWith_Cons startsWith_Nil caretSatisfies_def
        compare_nonneg split: option.splits)
  have c: "0 \<le> compare a b \<longleftrightarrow> \<not> spec_before (\<lambda>s t. localeCompare s t < 0) a b"
    by (rule compare_nonneg)
  from e1 e2 e3 e4 e5 e6 e7 e8 e9 e10 e11 g c show ?thesis by blast
qed

lemma TrimSpace_examples:
  "TrimSpace ''1.2.3-x'' = ''1.2.3-x''" "TrimSpace '' 1.2.3 '' = ''1.2.3''"
  "TrimSpace ''^1.0.0'' = ''^1.0.0''" "TrimSpace ''file:../x'' = ''file:../x''"
  "TrimSpace ''latest'' = ''latest''" "TrimSpace ''*'' = ''*''"
  "TrimSpace ''^4.17.0'' = ''^4.17.0''"
  by code_simp+

lemma ContainsAny_iff: "ContainsAny s chars \<longleftrightarrow> set s \<inter> set chars \<noteq> {}"
  by (auto simp: ContainsAny_def list_ex_iff)

text \<open>
  C7, as the code has it. The two scanners differ. In the Node module a specifier is exact
  if and only if it holds none of the characters \<^verbatim>\<open>^ ~ > < = * x\<close> (the lower-case
  letter only) and \<^verbatim>\<open>parse\<close> accepts it, which it does exactly when the
  specifier, after one optional leading \<^verbatim>\<open>v\<close>, begins with three runs of digits
  with dots between them: \<^verbatim>\<open>1.2.3\<close> and \<^verbatim>\<open>v1.2.3\<close> are exact, while
  \<^verbatim>\<open>^1.0.0\<close>, \<^verbatim>\<open>file:../x\<close>, the operator-free \<^verbatim>\<open>latest\<close> and
  \<^verbatim>\<open>1.2\<close>, \<^verbatim>\<open>1.2.3-x\<close> and the padded \<^verbatim>\<open> 1.2.3 \<close> are not. The Go
  \<^verbatim>\<open>isExactVersion\<close> trims the specifier first, refuses the characters
  \<^verbatim>\<open>^ ~ > < * |\<close> (not \<^verbatim>\<open>=\<close> or \<^verbatim>\<open>x\<close>), the prefixes
  \<^verbatim>\<open>file:\<close>, \<^verbatim>\<open>git:\<close>, \<^verbatim>\<open>http:\<close> and \<^verbatim>\<open>https:\<close>, the word
  \<^verbatim>\<open>latest\<close> and the empty text, and is true otherwise exactly when the semver
  library parses the trimmed text: so \<^verbatim>\<open>1.2.3-x\<close> is exact when the library
  parses it, and the padded \<^verbatim>\<open> 1.2.3 \<close> is exact when the library parses
  \<^verbatim>\<open>1.2.3\<close>.
\<close>

theorem isExactVersion_iff:
  "(isExactVersion s \<longleftrightarrow> set s \<inter> set ''^~><=*x'' = {} \<and> parse s \<noteq> None) \<and>
   (parse s \<noteq> None \<longleftrightarrow> spec_bareVersion s) \<and>
   isExactVersion ''1.2.3'' \<and> isExactVersion ''v1.2.3'' \<and> \<not> isExactVersion ''^1.0.0'' \<and>
   \<not> isExactVersion ''file:../x'' \<and> \<not> isExactVersion ''latest'' \<and>
   set ''latest'' \<inter> set ''^~><=*x'' = {} \<and>
   \<not> isExactVersion ''1.2'' \<and> \<not> isExactVersion ''1.2.3-x'' \<and> isExactVersion ''1.2.3-X'' \<and>
   \<not> isExactVersion '' 1.2.3 '' \<and>
   (isExactVersion_go lib t \<longleftrightarrow>
      set (TrimSpace t) \<inter> set ''^~><*|'' = {} \<and>
      \<not> HasPrefix (TrimSpace t) ''file:'' \<and> \<not> HasPrefix (TrimSpace t) ''git:'' \<and>
      \<not> HasPrefix (TrimSpace t) ''http:'' \<and> \<not> HasPrefix (TrimSpace t) ''https:'' \<and>
      TrimSpace t \<noteq> ''latest'' \<and> TrimSpace t \<noteq> [] \<and>
      NewVersion lib (TrimSpace t) \<noteq> None) \<and>
   (isExactVersion_go lib ''1.2.3-x'' \<longleftrightarrow> NewVersion lib ''1.2.3-x'' \<noteq> None) \<and>
   (isExactVersion_go lib '' 1.2.3 '' \<longleftrightarrow> NewVersion lib ''1.2.3'' \<noteq> None) \<and>
   \<not> isExactVersion_go lib ''^1.0.0'' \<and> \<not> isExactVersion_go lib ''file:../x'' \<and>
   \<not> isExactVersion_go lib ''latest''"
proof -
  have g: "isExactVersion s \<longleftrightarrow> set s \<inter> set ''^~><=*x'' = {} \<and> parse s \<noteq> None"
    by (auto simp: isExactVersion_def hasRangeOperator_iff parse_Nil)
  have p: "parse s \<noteq> None \<longleftrightarrow> spec_bareVersion s" by (rule parse_success_iff)
  have e1: "isExactVersion ''1.2.3''" by code_simp
  have e2: "\<not> isExactVersion ''^1.0.0''" by code_simp
  have e3: "\<not> isExactVersion ''file:../x''" by code_simp
  have e4: "\<not> isExactVersion ''latest''" by code_simp
  have e5: "set ''latest'' \<inter> set ''^~><=*x'' = {}" by simp
  have e6: "isExactVersion ''v1.2.3''" by code_simp
  have e7: "\<not> isExactVersion ''1.2''" by code_simp
  have e8: "\<not> isExactVersion ''1.2.3-x''" by code_simp
  have e9: "isExactVersion ''1.2.3-X''" by code_simp
  have e10: "\<not> isExactVersion '' 1.2.3 ''" by code_simp
  have go: "isExactVersion_go lib t \<longleftrightarrow>
      set (TrimSpace t) \<inter> set ''^~><*|'' = {} \<and>
      \<not> HasPrefix (TrimSpace t) ''file:'' \<and> \<not> HasPrefix (TrimSpace t) ''git:'' \<and>
      \<not> HasPrefix (TrimSpace t) ''http:'' \<and> \<not> HasPrefix (TrimSpace t) ''https:'' \<and>
      TrimSpace t \<noteq> ''latest'' \<and> TrimSpace t \<noteq> [] \<and>
      NewVersion lib (TrimSpace t) \<noteq> None"
    unfolding isExactVersion_go_def Let_def ContainsAny_iff by auto
  have g1: "isExactVersion_go lib ''1.2.3-x'' \<longleftrightarrow> NewVersion lib ''1.2.3-x'' \<noteq> None"
    by (simp add: isExactVersion_go_def TrimSpace_examples ContainsAny_def HasPrefix_def)
  have g2: "isExactVersion_go lib '' 1.2.3 '' \<longleftrightarrow> NewVersion lib ''1.2.3'' \<noteq> None"
    by (simp add: isExactVersion_go_def TrimSpace_examples ContainsAny_def HasPrefix_def)
  have g3: "\<not> isExactVersion_go lib ''^1.0.0''"
    by (simp add: isExactVersion_go_def TrimSpace_examples ContainsAny_def HasPrefix_def)
  have g4: "\<not> isExactVersion_go lib ''file:../x''"
    by (simp add: isExactVersion_go_def TrimSpace_examples ContainsAny_def HasPrefix_def)
  have g5: "\<not> isExactVersion_go lib ''latest''"
    by (simp add: isExactVersion_go_def TrimSpace_examples ContainsAny_def HasPrefix_def)
  from g p e1 e2 e3 e4 e5 e6 e7 e8 e9 e10 go g1 g2 g3 g4 g5 show ?thesis by blast
qed

text \<open>
  On a library that parses what \<^verbatim>\<open>parse\<close> parses, the Go function finds
  \<^verbatim>\<open>1.2.3-x\<close> exact although it holds the letter \<^verbatim>\<open>x\<close>, and finds the
  padded \<^verbatim>\<open> 1.2.3 \<close> exact although the library does not parse it as it stands.
\<close>

theorem isExactVersion_go_counterexample:
  "\<not> (isExactVersion_go nodeSemver ''1.2.3-x'' \<longleftrightarrow>
        set ''1.2.3-x'' \<inter> set ''^~><=*x'' = {} \<and> NewVersion nodeSemver ''1.2.3-x'' \<noteq> None) \<and>
   \<not> (isExactVersion_go nodeSemver '' 1.2.3 '' \<longleftrightarrow>
        set '' 1.2.3 '' \<inter> set ''^~><=*x'' = {} \<and> NewVersion nodeSemver '' 1.2.3 '' \<noteq> None)"
proof -
  have a: "isExactVersion_go nodeSemver ''1.2.3-x''" by code_simp
  have b: "set ''1.2.3-x'' \<inter> set ''^~><=*x'' \<noteq> {}" by simp
  have c: "isExactVersion_go nodeSemver '' 1.2.3 ''" by code_simp
  have d: "NewVersion nodeSemver '' 1.2.3 '' = None" by code_simp
  from a b c d show ?thesis by simp
qed

text \<open>
  C9. The string \<^verbatim>\<open>1.2.3-x\<close> parses as a version whose prerelease tag is
  \<^verbatim>\<open>x\<close>, yet as a specifier it is not exact and no version satisfies it, not even
  \<^verbatim>\<open>1.2.3-x\<close> itself: the letter sends it past the exact comparison, and it has
  none of the prefixes and neither wildcard form.
\<close>

theorem satisfies_prerelease_x_never:
  "parse ''1.2.3-x'' = Some \<lparr>major = 1, minor = 2, patch = 3, prerelease = Some ''x''\<rparr> \<and>
   \<not> isExactVersion ''1.2.3-x'' \<and> \<not> satisfies v ''1.2.3-x'' \<and>
   \<not> satisfies ''1.2.3-x'' ''1.2.3-x''"
proof -
  have p: "parse ''1.2.3-x'' =
      Some \<lparr>major = 1, minor = 2, patch = 3, prerelease = Some ''x''\<rparr>"
    by code_simp
  have e: "\<not> isExactVersion ''1.2.3-x''" by code_simp
  have wm: "wildcardMatch ''1.2.3-x'' = None" by code_simp
  have ro: "hasRangeOperator ''1.2.3-x''" by code_simp
  have s: "\<not> satisfies w ''1.2.3-x''" for w
    by (simp add: satisfies_def wm ro startsWith_Cons split: option.splits)
  from p e s show ?thesis by blast
qed

text \<open>
  C10. The specifier is taken as it is, with no trimming: a specifier that begins with a
  space is satisfied by no version, although \<^verbatim>\<open>1.2.3\<close> satisfies both
  \<^verbatim>\<open>^1.0.0\<close> and \<^verbatim>\<open>1.2.3\<close> once the space is gone.
\<close>

theorem satisfies_leading_space_false:
  "\<not> satisfies v (CHR '' '' # s) \<and>
   satisfies ''1.2.3'' ''^1.0.0'' \<and> \<not> satisfies ''1.2.3'' '' ^1.0.0'' \<and>
   satisfies ''1.2.3'' ''1.2.3'' \<and> \<not> satisfies ''1.2.3'' '' 1.2.3''"
proof -
  have g: "\<not> satisfies w (CHR '' '' # t)" for w t
  proof (cases "hasRangeOperator (CHR '' '' # t)")
    case True
    then show ?thesis
      by (simp add: satisfies_def parse_leading_space wildcardMatch_leading_space
          startsWith_Cons split: option.splits)
  next
    case False
    then show ?thesis
      by (simp add: satisfies_def parse_leading_space split: option.splits)
  qed
  have e1: "satisfies ''1.2.3'' ''^1.0.0''" by code_simp
  have e2: "satisfies ''1.2.3'' ''1.2.3''" by code_simp
  from g e1 e2 show ?thesis by blast
qed

text \<open>
  What \<^verbatim>\<open>satisfies\<close> does reject: an operator-free specifier that is no version, and
  a specifier with an operator character that has none of the prefixes and neither
  wildcard form.
\<close>

lemma satisfies_not_a_version:
  "\<not> hasRangeOperator rng \<Longrightarrow> parse rng = None \<Longrightarrow> \<not> satisfies v rng"
  by (auto simp: satisfies_def split: option.splits)

lemma satisfies_unknown_format:
  assumes "hasRangeOperator rng"
    and "\<not> startsWith rng ''^''" and "\<not> startsWith rng ''~''"
    and "\<not> startsWith rng ''>''" and "\<not> startsWith rng ''<''"
    and "\<not> startsWith rng ''=''" and "rng \<noteq> ''*''" and "rng \<noteq> ''x''"
    and "wildcardMatch rng = None"
  shows "\<not> satisfies v rng"
proof -
  have "\<not> startsWith rng ''>=''" and "\<not> startsWith rng ''<=''"
    using assms(4,5) by (cases rng; simp add: startsWith_def)+
  with assms show ?thesis
    by (simp add: satisfies_def split: option.splits)
qed

section \<open>Properties of the matchers\<close>

lemma potentialVersionsLoop_eq:
  "potentialVersionsLoop dep matches vs =
     matches @ map (potentialMatch dep) (take 1 (filter (\<lambda>v. satisfies v (versionSpec dep)) vs))"
  by (induction vs) simp_all

lemma potentialDependenciesLoop_eq:
  "potentialDependenciesLoop iocMap matches deps =
     matches @
     concat (map (\<lambda>dep.
       case iocMap (name dep) of
         None \<Rightarrow> []
       | Some vs \<Rightarrow>
           if isExactVersion (versionSpec dep) then []
           else map (potentialMatch dep)
                  (take 1 (filter (\<lambda>v. satisfies v (versionSpec dep)) vs))) deps)"
proof (induction deps arbitrary: matches)
  case Nil
  then show ?case by simp
next
  case (Cons dep deps)
  show ?case
  proof (cases "iocMap (name dep)")
    case None
    then show ?thesis by (simp add: Cons.IH)
  next
    case (Some vs)
    then show ?thesis
      by (cases "vs = []") (simp_all add: Cons.IH potentialVersionsLoop_eq)
  qed
qed

lemma vulnerableVersionsLoop_eq:
  "vulnerableVersionsLoop lib dep matches vs =
     matches @ map (potentialMatch_go dep)
       (filter (\<lambda>v. versionSatisfiesRange lib v (VersionSpec dep)) vs)"
  by (induction vs arbitrary: matches) simp_all

lemma matchPotentialLoop_eq:
  "matchPotentialLoop lib iocDB matches deps =
     matches @
     concat (map (\<lambda>dep.
       if isExactVersion_go lib (VersionSpec dep) then []
       else if isSemverRange lib (VersionSpec dep) then
         (case iocDB (Name dep) of
            None \<Rightarrow> []
          | Some vs \<Rightarrow>
              map (potentialMatch_go dep)
                (filter (\<lambda>v. versionSatisfiesRange lib v (VersionSpec dep)) vs))
       else []) deps)"
proof (induction deps arbitrary: matches)
  case Nil
  then show ?case by simp
next
  case (Cons dep deps)
  show ?case
    by (cases "iocDB (Name dep)") (simp_all add: Cons.IH vulnerableVersionsLoop_eq)
qed

lemma caret_not_exact_go: "\<not> isExactVersion_go lib ''^4.17.0''"
  by (simp add: isExactVersion_go_def TrimSpace_examples ContainsAny_def)

text \<open>
  What each matcher returns. The Go matcher \<^verbatim>\<open>MatchPotential\<close> gives, for every
  dependency whose specifier \<^verbatim>\<open>isExactVersion\<close> refuses and
  \<^verbatim>\<open>isSemverRange\<close> accepts, one POTENTIAL match carrying the declared specifier
  for each listed version that satisfies the range, in the order of the table. The Node
  matcher gives, for every dependency whose specifier is not exact, a match for the first
  listed version that satisfies the range, and no other.
\<close>

lemma MatchPotential_eq:
  "MatchPotential lib deps iocDB =
     concat (map (\<lambda>dep.
       if isExactVersion_go lib (VersionSpec dep) then []
       else if isSemverRange lib (VersionSpec dep) then
         (case iocDB (Name dep) of
            None \<Rightarrow> []
          | Some vs \<Rightarrow>
              map (potentialMatch_go dep)
                (filter (\<lambda>v. versionSatisfiesRange lib v (VersionSpec dep)) vs))
       else []) deps)"
  by (simp add: MatchPotential_def matchPotentialLoop_eq)

lemma matchPotentialDependencies_eq:
  "matchPotentialDependencies dependencies iocMap =
     concat (map (\<lambda>dep.
       case iocMap (name dep) of
         None \<Rightarrow> []
       | Some vs \<Rightarrow>
           if isExactVersion (versionSpec dep) then []
           else map (potentialMatch dep)
                  (take 1 (filter (\<lambda>v. satisfies v (versionSpec dep)) vs))) dependencies)"
  by (simp add: matchPotentialDependencies_def potentialDependenciesLoop_eq)

text \<open>
  The Go matcher on the lodash record: two matches, whenever the library accepts the
  range and both listed versions satisfy it. And on the specifier \<^verbatim>\<open>*\<close>, which
  the Go matcher skips: no match.
\<close>

lemma MatchPotential_lodash:
  assumes "isSemverRange lib ''^4.17.0''"
    and "versionSatisfiesRange lib ''4.17.19'' ''^4.17.0''"
    and "versionSatisfiesRange lib ''4.17.20'' ''^4.17.0''"
  shows "MatchPotential lib
      [\<lparr>Name = ''lodash'', VersionSpec = ''^4.17.0'', Type = ''dependencies'',
        FilePath = ''/app/package.json''\<rparr>]
      [''lodash'' \<mapsto> [''4.17.19'', ''4.17.20'']] =
      [\<lparr>PackageName = ''lodash'', Version = ''4.17.19'', Severity = ''POTENTIAL'',
        Location = ''/app/package.json'', DeclaredSpec = ''^4.17.0''\<rparr>,
       \<lparr>PackageName = ''lodash'', Version = ''4.17.20'', Severity = ''POTENTIAL'',
        Location = ''/app/package.json'', DeclaredSpec = ''^4.17.0''\<rparr>]"
  using assms
  by (simp add: MatchPotential_def caret_not_exact_go potentialMatch_go_def
      SeverityPotential_def)

lemma MatchPotential_star:
  "MatchPotential lib
     [\<lparr>Name = n, VersionSpec = ''*'', Type = ty, FilePath = f\<rparr>] iocDB = []"
proof -
  have "\<not> isSemverRange lib ''*''"
    by (simp add: isSemverRange_def TrimSpace_examples)
  then show ?thesis by (simp add: MatchPotential_def)
qed

text \<open>
  C1, at the record \<^verbatim>\<open>(lodash, ^4.17.0)\<close> with the versions 4.17.19 and 4.17.20
  listed for lodash. In the Node matcher the specifier is not exact and both listed
  versions satisfy it, yet one match comes out, for 4.17.19: the loop over the listed
  versions ends at the first version that satisfies the range.
\<close>

theorem matchPotentialDependencies_first_only:
  "satisfies ''4.17.19'' ''^4.17.0'' \<and> satisfies ''4.17.20'' ''^4.17.0'' \<and>
   \<not> isExactVersion ''^4.17.0'' \<and>
   matchPotentialDependencies
     [\<lparr>name = ''lodash'', versionSpec = ''^4.17.0'', depType = ''dependencies'',
       filePath = ''/app/package.json''\<rparr>]
     [''lodash'' \<mapsto> [''4.17.19'', ''4.17.20'']] =
     [\<lparr>packageName = ''lodash'', version = ''4.17.19'', severity = ''POTENTIAL'',
       location = ''/app/package.json'', declaredSpec = Some ''^4.17.0''\<rparr>]"
proof -
  have a: "satisfies ''4.17.19'' ''^4.17.0''" by code_simp
  have b: "satisfies ''4.17.20'' ''^4.17.0''" by code_simp
  have c: "\<not> isExactVersion ''^4.17.0''" by code_simp
  from a c have d: "matchPotentialDependencies
     [\<lparr>name = ''lodash'', versionSpec = ''^4.17.0'', depType = ''dependencies'',
       filePath = ''/app/package.json''\<rparr>]
     [''lodash'' \<mapsto> [''4.17.19'', ''4.17.20'']] =
     [\<lparr>packageName = ''lodash'', version = ''4.17.19'', severity = ''POTENTIAL'',
       location = ''/app/package.json'', declaredSpec = Some ''^4.17.0''\<rparr>]"
    by (simp add: matchPotentialDependencies_def potentialMatch_def)
  from a b c d show ?thesis by blast
qed

text \<open>
  C2, at the specifier \<^verbatim>\<open>>=1.0.0 <2.0.0 <<bad\<close>. \<^verbatim>\<open>parse\<close> reads the operand
  \<^verbatim>\<open>1.0.0 <2.0.0 <<bad\<close> as the version 1.0.0 and ignores the rest, so
  \<^verbatim>\<open>satisfies\<close> takes the specifier for \<^verbatim>\<open>>=1.0.0\<close>: the version 1.5.0
  satisfies it and the Node matcher reports a POTENTIAL match for it. It takes the
  compound range \<^verbatim>\<open>>=3.0.0 <4.0.0\<close> the same way, so that 4.0.0 satisfies it.
\<close>

theorem satisfies_malformed_compound:
  "parse ''1.0.0 <2.0.0 <<bad'' =
     Some \<lparr>major = 1, minor = 0, patch = 0, prerelease = None\<rparr> \<and>
   satisfies ''1.5.0'' ''>=1.0.0 <2.0.0 <<bad'' \<and>
   \<not> isExactVersion ''>=1.0.0 <2.0.0 <<bad'' \<and>
   matchPotentialDependencies
     [\<lparr>name = ''pkg'', versionSpec = ''>=1.0.0 <2.0.0 <<bad'', depType = ''dependencies'',
       filePath = ''/app/package.json''\<rparr>]
     [''pkg'' \<mapsto> [''1.5.0'']] =
     [\<lparr>packageName = ''pkg'', version = ''1.5.0'', severity = ''POTENTIAL'',
       location = ''/app/package.json'', declaredSpec = Some ''>=1.0.0 <2.0.0 <<bad''\<rparr>] \<and>
   satisfies ''4.0.0'' ''>=3.0.0 <4.0.0''"
proof -
  have a: "parse ''1.0.0 <2.0.0 <<bad'' =
      Some \<lparr>major = 1, minor = 0, patch = 0, prerelease = None\<rparr>"
    by code_simp
  have b: "satisfies ''1.5.0'' ''>=1.0.0 <2.0.0 <<bad''" by code_simp
  have c: "\<not> isExactVersion ''>=1.0.0 <2.0.0 <<bad''" by code_simp
  from b c have d: "matchPotentialDependencies
     [\<lparr>name = ''pkg'', versionSpec = ''>=1.0.0 <2.0.0 <<bad'', depType = ''dependencies'',
       filePath = ''/app/package.json''\<rparr>]
     [''pkg'' \<mapsto> [''1.5.0'']] =
     [\<lparr>packageName = ''pkg'', version = ''1.5.0'', severity = ''POTENTIAL'',
       location = ''/app/package.json'', declaredSpec = Some ''>=1.0.0 <2.0.0 <<bad''\<rparr>]"
    by (simp add: matchPotentialDependencies_def potentialMatch_def)
  have e: "satisfies ''4.0.0'' ''>=3.0.0 <4.0.0''" by code_simp
  from a b c d e show ?thesis by blast
qed

section \<open>Properties of the tables\<close>

lemma pushVersions_eq:
  "pushVersions versions parts =
     versions @ filter (\<lambda>v. v \<noteq> []) (map (\<lambda>p. trim (stripEquals p)) parts)"
  by (induction parts arbitrary: versions) (simp_all add: Let_def)

text \<open>
  A line of the Node table with a non-empty name cell and a non-empty version cell appends,
  to the versions of the package, the pieces of the version cell between the
  \<^verbatim>\<open>||\<close> separators, each trimmed and without its \<^verbatim>\<open>=\<close> prefix, the
  empty ones left out.
\<close>

lemma parseLine_row:
  assumes "split (trim rawLine) '','' = packageCell # versionCell # rest"
    and "packageCell \<noteq> []" and "versionCell \<noteq> []"
  shows "parseLine iocMap rawLine (trim packageCell) =
     Some ((case iocMap (trim packageCell) of None \<Rightarrow> [] | Some vs \<Rightarrow> vs) @
           filter (\<lambda>v. v \<noteq> [])
             (map (\<lambda>p. trim (stripEquals (trim p))) (split versionCell ''||'')))"
proof -
  have "trim rawLine \<noteq> []"
    using assms(1) by (auto simp: split_def)
  then show ?thesis
    using assms
    by (cases "iocMap (trim packageCell)")
      (simp_all add: parseLine_def Let_def pushVersions_eq comp_def)
qed

lemma parseLine_cases:
  "parseLine m rawLine = m \<or>
   (\<exists>n parts. parseLine m rawLine =
      m(n \<mapsto> pushVersions (case m n of Some vs \<Rightarrow> vs | None \<Rightarrow> []) parts))"
proof (cases "trim rawLine = []")
  case True
  then show ?thesis by (simp add: parseLine_def)
next
  case False
  show ?thesis
  proof (cases "split (trim rawLine) '',''")
    case Nil
    with False show ?thesis by (simp add: parseLine_def)
  next
    case (Cons p rest)
    show ?thesis
    proof (cases rest)
      case Nil
      with Cons False show ?thesis by (simp add: parseLine_def)
    next
      case (Cons v rest')
      show ?thesis
      proof (cases "p = [] \<or> v = []")
        case True
        with False \<open>split (trim rawLine) '','' = p # rest\<close> Cons show ?thesis
          by (simp add: parseLine_def)
      next
        case ne: False
        have "parseLine m rawLine =
            m(trim p \<mapsto> pushVersions (case m (trim p) of Some vs \<Rightarrow> vs | None \<Rightarrow> [])
                        (map trim (split v ''||'')))"
          using False \<open>split (trim rawLine) '','' = p # rest\<close> Cons ne
          by (cases "m (trim p)") (simp_all add: parseLine_def Let_def)
        then show ?thesis by blast
      qed
    qed
  qed
qed

lemma parseLine_noEmptyVersion:
  assumes "noEmptyVersion m"
  shows "noEmptyVersion (parseLine m rawLine)"
proof -
  from parseLine_cases [of m rawLine] show ?thesis
  proof
    assume "parseLine m rawLine = m"
    with assms show ?thesis by simp
  next
    assume "\<exists>n parts. parseLine m rawLine =
      m(n \<mapsto> pushVersions (case m n of Some vs \<Rightarrow> vs | None \<Rightarrow> []) parts)"
    then obtain n parts where e: "parseLine m rawLine =
      m(n \<mapsto> pushVersions (case m n of Some vs \<Rightarrow> vs | None \<Rightarrow> []) parts)"
      by blast
    have "[] \<notin> set (case m n of Some vs \<Rightarrow> vs | None \<Rightarrow> [])"
      using assms by (cases "m n") (auto simp: noEmptyVersion_def)
    then have "[] \<notin> set (pushVersions (case m n of Some vs \<Rightarrow> vs | None \<Rightarrow> []) parts)"
      by (simp add: pushVersions_eq)
    with assms show ?thesis
      unfolding e noEmptyVersion_def by (simp split: if_splits)
  qed
qed

lemma foldl_parseLine_noEmptyVersion:
  "noEmptyVersion m \<Longrightarrow> noEmptyVersion (foldl parseLine m ls)"
  by (induction ls arbitrary: m) (simp_all add: parseLine_noEmptyVersion)

text \<open>The half of the invariant that the Node table keeps: no version string is empty.\<close>

lemma parseIoCCsv_noEmptyVersion: "noEmptyVersion (parseIoCCsv csvText)"
proof -
  have "noEmptyVersion Map.empty" by (simp add: noEmptyVersion_def)
  then show ?thesis
    unfolding parseIoCCsv_def by (rule foldl_parseLine_noEmptyVersion)
qed

lemma noEmptyEntry_update:
  "noEmptyEntry m \<Longrightarrow> n \<noteq> [] \<Longrightarrow>
   noEmptyEntry (m(n \<mapsto> (case m n of None \<Rightarrow> [] | Some vs \<Rightarrow> vs) @ [v]))"
  by (simp add: noEmptyEntry_def)

lemma parseRecords_step:
  "\<exists>m1. parseRecords m (Inr row # rest) = parseRecords m1 rest \<and>
        (noEmptyEntry m \<longrightarrow> noEmptyEntry m1)"
proof (cases "length row < 2")
  case True
  then have "parseRecords m (Inr row # rest) = parseRecords m rest" by simp
  then show ?thesis by blast
next
  case False
  show ?thesis
  proof (cases "TrimSpace (row ! 0) = [] \<or> TrimSpace (row ! 1) = []")
    case True
    with False have "parseRecords m (Inr row # rest) = parseRecords m rest"
      by (simp add: Let_def)
    then show ?thesis by blast
  next
    case ne: False
    define n where "n = TrimSpace (row ! 0)"
    define v where "v = TrimSpace (TrimPrefix (TrimSpace (row ! 1)) ''='')"
    have "parseRecords m (Inr row # rest) =
        parseRecords (m(n \<mapsto> (case m n of None \<Rightarrow> [] | Some vs \<Rightarrow> vs) @ [v])) rest"
      using False ne by (simp add: Let_def n_def v_def)
    moreover have "n \<noteq> []" using ne by (simp add: n_def)
    ultimately show ?thesis using noEmptyEntry_update [of m n v] by blast
  qed
qed

lemma parseRecords_noEmptyEntry:
  "noEmptyEntry m \<Longrightarrow> parseRecords m reads = Inr m' \<Longrightarrow> noEmptyEntry m'"
proof (induction reads arbitrary: m)
  case Nil
  then show ?case by simp
next
  case (Cons r rest)
  show ?case
  proof (cases r)
    case (Inl e)
    with Cons.prems show ?thesis by simp
  next
    case (Inr row)
    from parseRecords_step [of m row rest] obtain m1 where
      s: "parseRecords m (Inr row # rest) = parseRecords m1 rest"
      and g: "noEmptyEntry m \<longrightarrow> noEmptyEntry m1"
      by blast
    from g Cons.prems(1) have "noEmptyEntry m1" by blast
    moreover from s Inr Cons.prems(2) have "parseRecords m1 rest = Inr m'" by simp
    ultimately show ?thesis by (rule Cons.IH)
  qed
qed

text \<open>
  The half of the invariant that the Go table keeps: no name is empty and no name has an
  empty list.
\<close>

lemma ParseCSV_noEmptyEntry:
  assumes "ParseCSV reads = Inr m"
  shows "noEmptyEntry m"
proof -
  have e: "noEmptyEntry Map.empty" by (simp add: noEmptyEntry_def)
  show ?thesis
  proof (cases reads)
    case Nil
    with assms e show ?thesis by (auto simp: ParseCSV_def)
  next
    case (Cons r rest)
    show ?thesis
    proof (cases r)
      case (Inl err)
      with Cons assms show ?thesis by (simp add: ParseCSV_def)
    next
      case (Inr h)
      with Cons assms have "parseRecords Map.empty rest = Inr m" by (simp add: ParseCSV_def)
      with e show ?thesis by (rule parseRecords_noEmptyEntry)
    qed
  qed
qed

text \<open>
  C3, at the row \<^verbatim>\<open>@zapier/ai-actions,= 0.1.18 || = 0.1.19 || = 0.1.20\<close>. The
  Go table does not split the version cell: it strips the first \<^verbatim>\<open>=\<close> and keeps
  the rest of the cell as one version string. The Node table records the three versions
  0.1.18, 0.1.19 and 0.1.20, in that order.
\<close>

theorem ParseCSV_keeps_joined_cell:
  "(case ParseCSV [Inr [''Package'', ''Version''],
                   Inr [''@zapier/ai-actions'', ''= 0.1.18 || = 0.1.19 || = 0.1.20'']] of
      Inl err \<Rightarrow> None
    | Inr iocMap \<Rightarrow> iocMap ''@zapier/ai-actions'') =
     Some [''0.1.18 || = 0.1.19 || = 0.1.20''] \<and>
   parseIoCCsv (''Package,Version'' @ [CHR 0x0A] @
                ''@zapier/ai-actions,= 0.1.18 || = 0.1.19 || = 0.1.20'')
     ''@zapier/ai-actions'' = Some [''0.1.18'', ''0.1.19'', ''0.1.20'']"
proof -
  have g: "(case ParseCSV [Inr [''Package'', ''Version''],
                   Inr [''@zapier/ai-actions'', ''= 0.1.18 || = 0.1.19 || = 0.1.20'']] of
      Inl err \<Rightarrow> None
    | Inr iocMap \<Rightarrow> iocMap ''@zapier/ai-actions'') =
     Some [''0.1.18 || = 0.1.19 || = 0.1.20'']"
    by code_simp
  have n: "parseIoCCsv (''Package,Version'' @ [CHR 0x0A] @
                ''@zapier/ai-actions,= 0.1.18 || = 0.1.19 || = 0.1.20'')
     ''@zapier/ai-actions'' = Some [''0.1.18'', ''0.1.19'', ''0.1.20'']"
    by code_simp
  from g n show ?thesis by blast
qed

text \<open>
  C4, at the row \<^verbatim>\<open>pkg,=\<close>, whose version cell is empty once the \<^verbatim>\<open>=\<close> is
  stripped. The Node table creates the entry of the package before it looks at the
  versions, and leaves \<^verbatim>\<open>pkg\<close> with an empty list. The Go table tests the cell
  for emptiness before it strips the \<^verbatim>\<open>=\<close>, and leaves \<^verbatim>\<open>pkg\<close> with the
  empty string as its one version.
\<close>

theorem tables_keep_empty_row:
  "parseIoCCsv (''Package,Version'' @ [CHR 0x0A] @ ''pkg,='') ''pkg'' = Some [] \<and>
   (case ParseCSV [Inr [''Package'', ''Version''], Inr [''pkg'', ''='']] of
      Inl err \<Rightarrow> None
    | Inr iocMap \<Rightarrow> iocMap ''pkg'') = Some [[]]"
proof -
  have n: "parseIoCCsv (''Package,Version'' @ [CHR 0x0A] @ ''pkg,='') ''pkg'' = Some []"
    by code_simp
  have g: "(case ParseCSV [Inr [''Package'', ''Version''], Inr [''pkg'', ''='']] of
      Inl err \<Rightarrow> None
    | Inr iocMap \<Rightarrow> iocMap ''pkg'') = Some [[]]"
    by code_simp
  from g n show ?thesis by blast
qed

section \<open>Properties of the deduplication\<close>

lemma deduplicateLoop_result:
  "deduplicateLoop seen result ms = result @ deduplicateLoop seen [] ms"
proof (induction ms arbitrary: seen result)
  case Nil
  then show ?case by simp
next
  case (Cons m ms)
  define seen' where "seen' = seen(matchKey m := True)"
  have a: "deduplicateLoop seen' (result @ [m]) ms = (result @ [m]) @ deduplicateLoop seen' [] ms"
    by (rule Cons.IH)
  have b: "deduplicateLoop seen' [m] ms = [m] @ deduplicateLoop seen' [] ms"
    by (rule Cons.IH)
  have c: "deduplicateLoop seen result ms = result @ deduplicateLoop seen [] ms"
    by (rule Cons.IH)
  show ?case
  proof (cases "seen (matchKey m)")
    case True
    then show ?thesis using c by (simp add: Let_def)
  next
    case False
    then have "deduplicateLoop seen result (m # ms) = deduplicateLoop seen' (result @ [m]) ms"
      and "deduplicateLoop seen [] (m # ms) = deduplicateLoop seen' [m] ms"
      by (simp_all add: Let_def seen'_def)
    with a b show ?thesis by simp
  qed
qed

lemma deduplicateLoop_Cons:
  "deduplicateLoop seen [] (m # ms) =
     (if seen (matchKey m) then deduplicateLoop seen [] ms
      else m # deduplicateLoop (seen(matchKey m := True)) [] ms)"
proof -
  define seen' where "seen' = seen(matchKey m := True)"
  have "deduplicateLoop seen' [m] ms = [m] @ deduplicateLoop seen' [] ms"
    by (rule deduplicateLoop_result)
  moreover have "deduplicateLoop seen [] (m # ms) =
      (if seen (matchKey m) then deduplicateLoop seen [] ms else deduplicateLoop seen' [m] ms)"
    by (simp add: Let_def seen'_def)
  ultimately show ?thesis by (simp add: seen'_def)
qed

declare deduplicateLoop.simps(2) [simp del]

lemma deduplicateLoop_length: "length (deduplicateLoop seen [] ms) \<le> length ms"
proof (induction ms arbitrary: seen)
  case Nil
  then show ?case by simp
next
  case (Cons m ms)
  define seen' where "seen' = seen(matchKey m := True)"
  have "length (deduplicateLoop seen [] ms) \<le> length ms"
    and "length (deduplicateLoop seen' [] ms) \<le> length ms"
    by (rule Cons.IH)+
  then show ?case
    unfolding deduplicateLoop_Cons seen'_def [symmetric] by auto
qed

lemma deduplicateLoop_subseq: "subseq (deduplicateLoop seen [] ms) ms"
proof (induction ms arbitrary: seen)
  case Nil
  then show ?case by simp
next
  case (Cons m ms)
  define seen' where "seen' = seen(matchKey m := True)"
  have "subseq (deduplicateLoop seen [] ms) ms"
    and "subseq (deduplicateLoop seen' [] ms) ms"
    by (rule Cons.IH)+
  then show ?case
    unfolding deduplicateLoop_Cons seen'_def [symmetric] by (auto intro: list_emb_Cons)
qed

lemma deduplicateLoop_unseen:
  "x \<in> set (deduplicateLoop seen [] ms) \<Longrightarrow> \<not> seen (matchKey x)"
proof (induction ms arbitrary: seen)
  case Nil
  then show ?case by simp
next
  case (Cons m ms)
  show ?case
  proof (cases "seen (matchKey m)")
    case True
    with Cons.prems have "x \<in> set (deduplicateLoop seen [] ms)"
      by (simp add: deduplicateLoop_Cons)
    then show ?thesis by (rule Cons.IH)
  next
    case False
    with Cons.prems have "x = m \<or> x \<in> set (deduplicateLoop (seen(matchKey m := True)) [] ms)"
      by (simp add: deduplicateLoop_Cons)
    then show ?thesis
    proof
      assume "x = m"
      with False show ?thesis by simp
    next
      assume "x \<in> set (deduplicateLoop (seen(matchKey m := True)) [] ms)"
      then have "\<not> (seen(matchKey m := True)) (matchKey x)" by (rule Cons.IH)
      then show ?thesis by (simp split: if_splits)
    qed
  qed
qed

lemma deduplicateLoop_distinct: "distinct (map matchKey (deduplicateLoop seen [] ms))"
proof (induction ms arbitrary: seen)
  case Nil
  then show ?case by simp
next
  case (Cons m ms)
  have "matchKey m \<notin> matchKey ` set (deduplicateLoop (seen(matchKey m := True)) [] ms)"
  proof
    assume "matchKey m \<in> matchKey ` set (deduplicateLoop (seen(matchKey m := True)) [] ms)"
    then obtain x where x: "x \<in> set (deduplicateLoop (seen(matchKey m := True)) [] ms)"
      and k: "matchKey m = matchKey x" by auto
    from x have "\<not> (seen(matchKey m := True)) (matchKey x)" by (rule deduplicateLoop_unseen)
    with k show False by simp
  qed
  moreover have "distinct (map matchKey (deduplicateLoop seen [] ms))"
    and "distinct (map matchKey (deduplicateLoop (seen(matchKey m := True)) [] ms))"
    by (rule Cons.IH)+
  ultimately show ?case
    unfolding deduplicateLoop_Cons by simp
qed

lemma deduplicateLoop_fixed:
  "distinct (map matchKey xs) \<Longrightarrow> (\<And>x. x \<in> set xs \<Longrightarrow> \<not> seen (matchKey x)) \<Longrightarrow>
   deduplicateLoop seen [] xs = xs"
proof (induction xs arbitrary: seen)
  case Nil
  then show ?case by simp
next
  case (Cons m xs)
  have d: "distinct (map matchKey xs)" and n: "matchKey m \<notin> matchKey ` set xs"
    using Cons.prems(1) by simp_all
  have u: "\<not> seen (matchKey m)" using Cons.prems(2) by simp
  have "deduplicateLoop (seen(matchKey m := True)) [] xs = xs"
  proof (rule Cons.IH [OF d])
    fix x assume "x \<in> set xs"
    then have "matchKey x \<in> matchKey ` set xs" and "\<not> seen (matchKey x)"
      using Cons.prems(2) by simp_all
    with n show "\<not> (seen(matchKey m := True)) (matchKey x)" by auto
  qed
  with u show ?case by (simp add: deduplicateLoop_Cons)
qed

text \<open>
  What the deduplication keeps of its contract whatever the keys are: it is idempotent, it
  never lengthens the list, the matches that survive are a subsequence of the input with
  pairwise different keys, and the survivor of a key is the first match of the input with
  that key, with its location and declared specifier.
\<close>

lemma DeduplicateMatches_idempotent:
  "DeduplicateMatches (DeduplicateMatches ms) = DeduplicateMatches ms"
  unfolding DeduplicateMatches_def
  by (rule deduplicateLoop_fixed [OF deduplicateLoop_distinct]) simp

lemma DeduplicateMatches_length: "length (DeduplicateMatches ms) \<le> length ms"
  unfolding DeduplicateMatches_def by (rule deduplicateLoop_length)

lemma DeduplicateMatches_subseq: "subseq (DeduplicateMatches ms) ms"
  unfolding DeduplicateMatches_def by (rule deduplicateLoop_subseq)

lemma DeduplicateMatches_distinct: "distinct (map matchKey (DeduplicateMatches ms))"
  unfolding DeduplicateMatches_def by (rule deduplicateLoop_distinct)

lemma deduplicateLoop_keys:
  "matchKey ` set (deduplicateLoop seen [] ms) = {k \<in> matchKey ` set ms. \<not> seen k}"
proof (induction ms arbitrary: seen)
  case Nil
  then show ?case by simp
next
  case (Cons m ms)
  define seen' where "seen' = seen(matchKey m := True)"
  have a: "matchKey ` set (deduplicateLoop seen [] ms) = {k \<in> matchKey ` set ms. \<not> seen k}"
    by (rule Cons.IH)
  have b: "matchKey ` set (deduplicateLoop seen' [] ms) = {k \<in> matchKey ` set ms. \<not> seen' k}"
    by (rule Cons.IH)
  have c: "\<not> seen' k \<longleftrightarrow> k \<noteq> matchKey m \<and> \<not> seen k" for k
    by (simp add: seen'_def)
  show ?case
    unfolding deduplicateLoop_Cons seen'_def [symmetric]
    using a b c by auto
qed

lemma DeduplicateMatches_keys:
  "matchKey ` set (DeduplicateMatches ms) = matchKey ` set ms"
  unfolding DeduplicateMatches_def by (simp add: deduplicateLoop_keys)

lemma deduplicateLoop_first:
  "x \<in> set (deduplicateLoop seen [] ms) \<Longrightarrow>
   find (\<lambda>y. matchKey y = matchKey x) ms = Some x"
proof (induction ms arbitrary: seen)
  case Nil
  then show ?case by simp
next
  case (Cons m ms)
  show ?case
  proof (cases "seen (matchKey m)")
    case True
    with Cons.prems have x: "x \<in> set (deduplicateLoop seen [] ms)"
      by (simp add: deduplicateLoop_Cons)
    then have "\<not> seen (matchKey x)" by (rule deduplicateLoop_unseen)
    with True have "matchKey m \<noteq> matchKey x" by auto
    with Cons.IH [OF x] show ?thesis by simp
  next
    case False
    with Cons.prems have "x = m \<or> x \<in> set (deduplicateLoop (seen(matchKey m := True)) [] ms)"
      by (simp add: deduplicateLoop_Cons)
    then show ?thesis
    proof
      assume "x = m"
      then show ?thesis by simp
    next
      assume x: "x \<in> set (deduplicateLoop (seen(matchKey m := True)) [] ms)"
      then have "\<not> (seen(matchKey m := True)) (matchKey x)" by (rule deduplicateLoop_unseen)
      then have "matchKey m \<noteq> matchKey x" by (auto split: if_splits)
      with Cons.IH [OF x] show ?thesis by simp
    qed
  qed
qed

lemma DeduplicateMatches_first:
  "x \<in> set (DeduplicateMatches ms) \<Longrightarrow> find (\<lambda>y. matchKey y = matchKey x) ms = Some x"
  unfolding DeduplicateMatches_def by (rule deduplicateLoop_first)

text \<open>Matches with the same name, version and severity have the same key.\<close>

lemma matchKey_of_triple:
  "PackageName a = PackageName b \<Longrightarrow> Version a = Version b \<Longrightarrow> Severity a = Severity b \<Longrightarrow>
   matchKey a = matchKey b"
  by (simp add: matchKey_def)

text \<open>
  C8, at two matches with different names and versions. The key is the text
  \<^verbatim>\<open>name@version:severity\<close>, and the name \<^verbatim>\<open>a@b\<close> with the version
  \<^verbatim>\<open>c\<close> gives the same text as the name \<^verbatim>\<open>a\<close> with the version
  \<^verbatim>\<open>b@c\<close>: the second match is dropped as a duplicate of the first although the two
  differ in name and in version.
\<close>

theorem DeduplicateMatches_key_collision:
  "DeduplicateMatches
     [\<lparr>PackageName = ''a@b'', Version = ''c'', Severity = SeverityTransitive,
       Location = ''one/package-lock.json'', DeclaredSpec = []\<rparr>,
      \<lparr>PackageName = ''a'', Version = ''b@c'', Severity = SeverityTransitive,
       Location = ''two/package-lock.json'', DeclaredSpec = []\<rparr>] =
     [\<lparr>PackageName = ''a@b'', Version = ''c'', Severity = SeverityTransitive,
       Location = ''one/package-lock.json'', DeclaredSpec = []\<rparr>] \<and>
   (''a@b'', ''c'', SeverityTransitive) \<noteq> (''a'', ''b@c'', SeverityTransitive)"
  by (simp add: DeduplicateMatches_def deduplicateLoop_Cons matchKey_def)

end
